theory Spec2Isabelle
  imports Complex_Main
begin

section \<open>Data model (frontend/lib/api.ts)\<close>

text \<open>
  The interfaces of \<^verbatim>\<open>api.ts\<close> as records. The union types
  \<^verbatim>\<open>"todo" | "done"\<close> and \<^verbatim>\<open>"high" | "med" | "low"\<close> are datatypes, an optional
  field is an \<open>option\<close>. A JavaScript \<^verbatim>\<open>number\<close> that carries a rating or an
  estimate is a rational here (NaN and the infinities are not represented). A field whose
  name is a HOL constant or a keyword (\<^verbatim>\<open>id\<close>, \<^verbatim>\<open>text\<close>), or that two
  interfaces share, carries a prefix.
\<close>

datatype status = Todo | Done

datatype priority = High | Med | Low

record TodoItem =
  item_id :: string
  group_key :: string
  item_text :: string
  status :: status
  priority :: "priority option"
  estimate_minutes :: "rat option"
  rationale :: "string option"

record ChecklistGroup =
  key :: string
  label :: string
  items :: "TodoItem list"

record ChecklistStructure =
  title :: string
  event_type :: string
  assumptions :: "string list"
  groups :: "ChecklistGroup list"
  next_3_actions :: "string list"

record InterviewQuestion =
  question :: string
  question_number :: nat
  total_questions :: nat

record InterviewResponse =
  r_question :: "InterviewQuestion option"
  r_feedback :: "string option"
  is_complete :: bool
  overall_feedback :: "string option"
  r_rating :: "rat option"
  r_passed :: "bool option"

type_synonym message = "string \<times> string"

record GetSessionResponse =
  session_id :: string
  created_at :: string
  s_event_type :: string
  s_title :: string
  user_goal_text :: string
  s_context :: "(string \<times> string) list"
  checklist :: "ChecklistStructure option"
  messages :: "message list"

record SendMessageResponse =
  m_session_id :: string
  m_message :: message
  m_messages :: "message list option"
  m_checklist :: "ChecklistStructure option"

text \<open>
  What a handler does besides changing component state: the requests it sends through
  \<^verbatim>\<open>api.ts\<close>, the callbacks it invokes and the dialogs it shows, in order.
\<close>

datatype effect =
    UpdateTodo string string status
  | StartInterview string string string
  | AnswerInterviewQuestion string string string
  | SendMessage string string
  | OnUpdate ChecklistStructure
  | OnComplete bool rat
  | OnClose
  | Alert string
  | ConsoleError string

section \<open>The UUID guard\<close>

text \<open>
  Both \<^verbatim>\<open>checklist.tsx\<close> and \<^verbatim>\<open>interview-modal.tsx\<close> test an id with
  \<^verbatim>\<open>/^[0-9a-f]{8}-[0-9a-f]{4}-[0-9a-f]{4}-[0-9a-f]{4}-[0-9a-f]{12}$/i\<close>.
  The expression is anchored at both ends and every quantifier is an exact count, so it
  is matched left to right without backtracking: \<open>match_hex n\<close> consumes
  \<^verbatim>\<open>[0-9a-f]{n}\<close> (under the flag \<^verbatim>\<open>i\<close>), \<open>match_lit\<close> one literal character, and
  the rest after the last piece must be empty.
\<close>

definition is_hex_ci :: "char \<Rightarrow> bool" where
  "is_hex_ci c = (c \<in> set ''0123456789abcdefABCDEF'')"

fun match_hex :: "nat \<Rightarrow> string \<Rightarrow> string option" where
  "match_hex 0 s = Some s"
| "match_hex (Suc n) [] = None"
| "match_hex (Suc n) (c # s) = (if is_hex_ci c then match_hex n s else None)"

fun match_lit :: "char \<Rightarrow> string \<Rightarrow> string option" where
  "match_lit l [] = None"
| "match_lit l (c # s) = (if c = l then Some s else None)"

definition uuidRegex_test :: "string \<Rightarrow> bool" where
  "uuidRegex_test s =
     (case Option.bind (Option.bind (Option.bind (Option.bind (Option.bind (Option.bind
            (Option.bind (Option.bind (match_hex 8 s)
              (match_lit CHR ''-'')) (match_hex 4))
              (match_lit CHR ''-'')) (match_hex 4))
              (match_lit CHR ''-'')) (match_hex 4))
              (match_lit CHR ''-'')) (match_hex 12)
      of None \<Rightarrow> False | Some rest \<Rightarrow> rest = [])"

text \<open>
  The canonical text form of a UUID, in the spec's words: 36 characters, hyphens at
  positions 8, 13, 18 and 23, a hexadecimal digit (of either case) everywhere else.
\<close>

definition uuid_shaped :: "string \<Rightarrow> bool" where
  "uuid_shaped s =
     (length s = 36 \<and>
      (\<forall>i < 36. if i = 8 \<or> i = 13 \<or> i = 18 \<or> i = 23 then s ! i = CHR ''-''
                 else is_hex_ci (s ! i)))"

section \<open>The checklist component (frontend/components/checklist.tsx)\<close>

record checklist_state =
  cl :: ChecklistStructure
  updatingIds :: "string set"
  interviewTodoId :: "string option"
  interviewTodoText :: "string option"

text \<open>
  \<^verbatim>\<open>handleToggleTodo(item)\<close> (lines 24 to 54) awaits the PATCH of \<^verbatim>\<open>updateTodo\<close>,
  so it runs in two halves, and other events of the component can fall between them.

  The first half, at the click: the new status is the opposite of the status of the item
  as rendered, the id enters \<open>updatingIds\<close> (a functional update of the state) and the
  request is sent.

  The second half, when the PATCH is answered (\<open>ok\<close> says whether it succeeded): on
  success the local checklist is replaced by \<^verbatim>\<open>updatedChecklist\<close>, which line 33 builds
  from \<^verbatim>\<open>checklist\<close>, the variable of the render in which the click happened; it is the
  parameter \<open>snapshot\<close>, and not the checklist the component holds by then. In it every
  item whose id equals the id of \<open>item\<close> takes the new status. The \<^verbatim>\<open>finally\<close> block
  removes the id from \<open>updatingIds\<close> (again a functional update).
\<close>

definition toggled_checklist :: "ChecklistStructure \<Rightarrow> TodoItem \<Rightarrow> status \<Rightarrow> ChecklistStructure" where
  "toggled_checklist c item newStatus =
     c\<lparr>groups := map (\<lambda>g. g\<lparr>items := map (\<lambda>i. if item_id i = item_id item
                                                    then i\<lparr>status := newStatus\<rparr> else i) (items g)\<rparr>)
                      (groups c)\<rparr>"

definition handleToggleTodo_click ::
  "string \<Rightarrow> checklist_state \<Rightarrow> TodoItem \<Rightarrow> checklist_state \<times> effect list" where
  "handleToggleTodo_click sessionId st item =
     (let newStatus = (if status item = Done then Todo else Done)
      in (st\<lparr>updatingIds := insert (item_id item) (updatingIds st)\<rparr>,
          [UpdateTodo sessionId (item_id item) newStatus]))"

definition handleToggleTodo_resolve ::
  "ChecklistStructure \<Rightarrow> checklist_state \<Rightarrow> TodoItem \<Rightarrow> bool \<Rightarrow> checklist_state \<times> effect list" where
  "handleToggleTodo_resolve snapshot st item ok =
     (let newStatus = (if status item = Done then Todo else Done);
          updatedChecklist = toggled_checklist snapshot item newStatus;
          st2 = (if ok then st\<lparr>cl := updatedChecklist\<rparr> else st);
          st3 = st2\<lparr>updatingIds := updatingIds st2 - {item_id item}\<rparr>
      in (st3,
          if ok then [OnUpdate updatedChecklist]
          else [ConsoleError ''Failed to update todo:'',
                Alert ''Failed to update todo. Please try again.'']))"

text \<open>
  The handler when no other event of the component falls between its two halves: the
  snapshot is then the checklist the component holds at the click.
\<close>

definition handleToggleTodo ::
  "string \<Rightarrow> checklist_state \<Rightarrow> TodoItem \<Rightarrow> bool \<Rightarrow> checklist_state \<times> effect list" where
  "handleToggleTodo sessionId st item ok =
     (let (st1, out1) = handleToggleTodo_click sessionId st item;
          (st2, out2) = handleToggleTodo_resolve (cl st) st1 item ok
      in (st2, out1 @ out2))"

text \<open>
  What the component renders for the groups. A group with no item renders
  \<^verbatim>\<open>null\<close>; every other group renders a card with one row per item. A row has the
  toggle button (disabled while the id is in \<open>updatingIds\<close>) and, under the condition of
  line 191, the Test Knowledge button.
\<close>

record item_view =
  view_item :: TodoItem
  toggle_disabled :: bool
  test_button :: bool

record group_card =
  card_key :: string
  card_label :: string
  card_rows :: "item_view list"

definition render_item :: "string set \<Rightarrow> ChecklistGroup \<Rightarrow> TodoItem \<Rightarrow> item_view" where
  "render_item U g item =
     \<lparr>view_item = item,
      toggle_disabled = (item_id item \<in> U),
      test_button = (key g = ''skills'' \<and> status item \<noteq> Done)\<rparr>"

definition render_group :: "string set \<Rightarrow> ChecklistGroup \<Rightarrow> group_card option" where
  "render_group U g =
     (if length (items g) = 0 then None
      else Some \<lparr>card_key = key g, card_label = label g,
                 card_rows = map (render_item U g) (items g)\<rparr>)"

definition render_groups :: "checklist_state \<Rightarrow> group_card option list" where
  "render_groups st = map (render_group (updatingIds st)) (groups (cl st))"

text \<open>The \<^verbatim>\<open>onClick\<close> of the Test Knowledge button (lines 194 to 204).\<close>

definition onTestKnowledgeClick :: "checklist_state \<Rightarrow> TodoItem \<Rightarrow> checklist_state \<times> effect list" where
  "onTestKnowledgeClick st item =
     (if \<not> uuidRegex_test (item_id item)
      then (st, [ConsoleError ''Invalid todo ID format:'',
                 Alert ''Invalid checklist item ID. Please refresh the page to regenerate the checklist.''])
      else (st\<lparr>interviewTodoId := Some (item_id item),
               interviewTodoText := Some (item_text item)\<rparr>, []))"

text \<open>
  A click on the Test Knowledge button of row \<open>ii\<close> of group \<open>gi\<close>. A button that is
  not rendered cannot be clicked: the event then changes nothing.
\<close>

definition row_at :: "checklist_state \<Rightarrow> nat \<Rightarrow> nat \<Rightarrow> item_view option" where
  "row_at st gi ii =
     (if gi < length (render_groups st) then
        (case render_groups st ! gi of
           None \<Rightarrow> None
         | Some gc \<Rightarrow> if ii < length (card_rows gc) then Some (card_rows gc ! ii) else None)
      else None)"

definition click_test_knowledge :: "checklist_state \<Rightarrow> nat \<Rightarrow> nat \<Rightarrow> checklist_state \<times> effect list" where
  "click_test_knowledge st gi ii =
     (case row_at st gi ii of
        None \<Rightarrow> (st, [])
      | Some row \<Rightarrow> if test_button row then onTestKnowledgeClick st (view_item row) else (st, []))"

text \<open>
  A click on the toggle of row \<open>ii\<close> of group \<open>gi\<close> whose PATCH is answered before
  anything else happens. The button is disabled only while the id of its own item is in
  \<open>updatingIds\<close>.
\<close>

definition click_toggle ::
  "string \<Rightarrow> checklist_state \<Rightarrow> nat \<Rightarrow> nat \<Rightarrow> bool \<Rightarrow> checklist_state \<times> effect list" where
  "click_toggle sessionId st gi ii ok =
     (case row_at st gi ii of
        None \<Rightarrow> (st, [])
      | Some row \<Rightarrow> if toggle_disabled row then (st, [])
                    else handleToggleTodo sessionId st (view_item row) ok)"

definition all_items :: "ChecklistStructure \<Rightarrow> TodoItem list" where
  "all_items c = concat (map items (groups c))"

text \<open>
  \<^verbatim>\<open>checklist.groups.flatMap((g) => g.items).find((i) => i.id === interviewTodoId)\<close>:
  the first item with that id, or \<^verbatim>\<open>undefined\<close>.
\<close>

definition find_item :: "ChecklistStructure \<Rightarrow> string \<Rightarrow> TodoItem option" where
  "find_item c tid = List.find (\<lambda>i. item_id i = tid) (all_items c)"





section \<open>The knowledge-test modal (frontend/components/interview-modal.tsx)\<close>

datatype role = User | Assistant

record modal_state =
  currentQuestion :: "InterviewQuestion option"
  answer :: string
  isLoading :: bool
  feedback :: "string option"
  history :: "(role \<times> string) list"
  isComplete :: bool
  rating :: "rat option"
  passed :: "bool option"
  overallFeedback :: "string option"

text \<open>The initial values of the \<^verbatim>\<open>useState\<close> calls: the state of a freshly mounted modal.\<close>

definition initial_modal :: modal_state where
  "initial_modal =
     \<lparr>currentQuestion = None, answer = [], isLoading = False, feedback = None, history = [],
      isComplete = False, rating = None, passed = None, overallFeedback = None\<rparr>"

text \<open>
  \<^verbatim>\<open>String.prototype.trim\<close> and \<^verbatim>\<open>String.prototype.includes\<close>. A \<open>char\<close> stands
  for a code unit below 256. Of the white space and line terminators that \<^verbatim>\<open>trim\<close>
  strips, these are the ones a \<open>char\<close> can hold: tab, line feed, vertical tab, form
  feed, carriage return, space and the no-break space U+00A0. The others (U+1680,
  U+2000 to U+200A, U+2028, U+2029, U+202F, U+205F, U+3000, U+FEFF) are code units that a
  \<open>string\<close> of this model does not contain.
\<close>

definition is_space :: "char \<Rightarrow> bool" where
  "is_space c = (c \<in> set [CHR 0x09, CHR 0x0A, CHR 0x0B, CHR 0x0C, CHR 0x0D, CHR 0x20, CHR 0xA0])"

definition trim :: "string \<Rightarrow> string" where
  "trim s = rev (dropWhile is_space (rev (dropWhile is_space s)))"

fun str_includes :: "string \<Rightarrow> string \<Rightarrow> bool" where
  "str_includes [] p = (p = [])"
| "str_includes (c # s) p = (take (length p) (c # s) = p \<or> str_includes s p)"

text \<open>
  A rejected promise is \<open>Inl\<close> of the message of the \<^verbatim>\<open>Error\<close> (\<open>None\<close> when the
  thrown value is not an \<^verbatim>\<open>Error\<close>), a resolved one is \<open>Inr\<close> of the response.
  The request and its answer are one step of the model: while the request is pending
  \<open>isLoading\<close> disables both the button and the text area.
\<close>

type_synonym 'a outcome = "string option + 'a"

definition handleStart ::
  "string \<Rightarrow> string \<Rightarrow> string \<Rightarrow> modal_state \<Rightarrow> InterviewResponse outcome \<Rightarrow> modal_state \<times> effect list" where
  "handleStart sessionId todoId todoText m result =
     (if \<not> uuidRegex_test todoId
      then (m, [Alert ''Invalid checklist item ID detected. Please refresh the page to regenerate the checklist with proper IDs, then try again.'',
                OnClose])
      else
        (case result of
           Inr response \<Rightarrow>
             ((case r_question response of
                 Some q \<Rightarrow> m\<lparr>currentQuestion := Some q, history := [(Assistant, question q)]\<rparr>
               | None \<Rightarrow> m)\<lparr>isLoading := False\<rparr>,
              [StartInterview sessionId todoId todoText])
         | Inl err \<Rightarrow>
             (let errorMessage = (case err of Some msg \<Rightarrow> msg
                                  | None \<Rightarrow> ''Failed to start interview. Please try again.'')
              in (m\<lparr>isLoading := False\<rparr>,
                  [StartInterview sessionId todoId todoText,
                   ConsoleError ''Failed to start interview:'',
                   Alert (if str_includes errorMessage ''Invalid todo_id''
                          then ''Invalid checklist item ID. Please refresh the page to regenerate the checklist, then try again.''
                          else errorMessage)]))))"

text \<open>
  The values \<^verbatim>\<open>response.rating || null\<close>, \<^verbatim>\<open>response.passed || null\<close> and
  \<^verbatim>\<open>response.overall_feedback || null\<close>: a falsy value (0, false, the empty string)
  becomes \<^verbatim>\<open>null\<close>.
\<close>

definition rating_or_null :: "rat option \<Rightarrow> rat option" where
  "rating_or_null v = (case v of Some x \<Rightarrow> if x = 0 then None else Some x | None \<Rightarrow> None)"

definition passed_or_null :: "bool option \<Rightarrow> bool option" where
  "passed_or_null v = (case v of Some True \<Rightarrow> Some True | _ \<Rightarrow> None)"

definition string_or_null :: "string option \<Rightarrow> string option" where
  "string_or_null v = (case v of Some s \<Rightarrow> if s = [] then None else Some s | None \<Rightarrow> None)"

definition handleSubmitAnswer ::
  "string \<Rightarrow> string \<Rightarrow> modal_state \<Rightarrow> InterviewResponse outcome \<Rightarrow> modal_state \<times> effect list" where
  "handleSubmitAnswer sessionId todoId m result =
     (if trim (answer m) = [] then (m, [])
      else
        (let userAnswer = answer m;
             m1 = m\<lparr>isLoading := True, answer := [], history := history m @ [(User, userAnswer)]\<rparr>;
             request = AnswerInterviewQuestion sessionId todoId userAnswer
         in case result of
              Inr response \<Rightarrow>
                if is_complete response then
                  (m1\<lparr>isComplete := True,
                      rating := rating_or_null (r_rating response),
                      passed := passed_or_null (r_passed response),
                      overallFeedback := string_or_null (overall_feedback response),
                      isLoading := False\<rparr>,
                   request #
                   (case (r_passed response, r_rating response) of
                      (Some True, Some r) \<Rightarrow> [OnComplete True r]
                    | _ \<Rightarrow> []))
                else
                  (let m2 = (case string_or_null (r_feedback response) of
                               Some fb \<Rightarrow> m1\<lparr>feedback := Some fb,
                                             history := history m1 @ [(Assistant, ''Feedback: '' @ fb)]\<rparr>
                             | None \<Rightarrow> m1);
                       m3 = (case r_question response of
                               Some q \<Rightarrow> m2\<lparr>currentQuestion := Some q,
                                            history := history m2 @ [(Assistant, question q)],
                                            feedback := None\<rparr>
                             | None \<Rightarrow> m2)
                   in (m3\<lparr>isLoading := False\<rparr>, [request]))
            | Inl err \<Rightarrow>
                (m1\<lparr>isLoading := False\<rparr>,
                 [request, ConsoleError ''Failed to answer question:'',
                  Alert ''Failed to submit answer. Please try again.''])))"

definition handleClose :: "modal_state \<Rightarrow> modal_state \<times> effect list" where
  "handleClose m =
     ((if isComplete m
       then m\<lparr>currentQuestion := None, answer := [], feedback := None, history := [],
              isComplete := False, rating := None, passed := None, overallFeedback := None\<rparr>
       else m),
      [OnClose])"

text \<open>
  The three blocks of the dialog body: the start button under
  \<^verbatim>\<open>!currentQuestion && !isComplete\<close>, the question with the answer form under
  \<^verbatim>\<open>currentQuestion && !isComplete\<close>, the result under \<^verbatim>\<open>isComplete\<close>.
\<close>

datatype modal_block = StartBlock | QuestionBlock | ResultBlock

definition modal_block :: "modal_state \<Rightarrow> modal_block" where
  "modal_block m =
     (if isComplete m then ResultBlock
      else if currentQuestion m = None then StartBlock else QuestionBlock)"

text \<open>
  The user's events on the modal. A control that is not rendered, or is disabled,
  receives no event. Submitting is the button (disabled when the trimmed answer is empty
  or a request is pending) or the key chord in the text area (disabled when a request is
  pending); \<open>handleSubmitAnswer\<close> checks the trimmed answer itself.
\<close>

datatype modal_event =
    ClickStart "InterviewResponse outcome"
  | TypeAnswer string
  | Submit "InterviewResponse outcome"
  | Close

fun modal_step ::
  "string \<Rightarrow> string \<Rightarrow> string \<Rightarrow> modal_state \<Rightarrow> modal_event \<Rightarrow> modal_state \<times> effect list" where
  "modal_step sessionId todoId todoText m (ClickStart result) =
     (if modal_block m = StartBlock \<and> \<not> isLoading m
      then handleStart sessionId todoId todoText m result else (m, []))"
| "modal_step sessionId todoId todoText m (TypeAnswer a) =
     (if modal_block m = QuestionBlock \<and> \<not> isLoading m then (m\<lparr>answer := a\<rparr>, []) else (m, []))"
| "modal_step sessionId todoId todoText m (Submit result) =
     (if modal_block m = QuestionBlock \<and> \<not> isLoading m
      then handleSubmitAnswer sessionId todoId m result else (m, []))"
| "modal_step sessionId todoId todoText m Close = handleClose m"

section \<open>The checklist together with its modal\<close>







fun is_AnswerRequest :: "effect \<Rightarrow> bool" where
  "is_AnswerRequest (AnswerInterviewQuestion s t a) = True"
| "is_AnswerRequest e = False"

section \<open>The session page (frontend/app/session/[id]/page.tsx)\<close>

record page_state =
  session :: "GetSessionResponse option"
  pageLoading :: bool
  isSending :: bool
  loadingMessage :: string
  inputValue :: string

text \<open>
  The three functional updates of \<^verbatim>\<open>setSession\<close> in \<^verbatim>\<open>handleSend\<close>: the optimistic
  append of the user's message, the update from a response whose \<^verbatim>\<open>messages\<close> is an
  array (\<^verbatim>\<open>response.checklist || prevSession.checklist\<close> keeps the checklist when the
  response has none), and the removal of the optimistic message after a failure
  (\<^verbatim>\<open>slice(0, -1)\<close>). Each leaves a \<^verbatim>\<open>null\<close> session as it is.
\<close>

definition append_optimistic :: "string \<Rightarrow> GetSessionResponse option \<Rightarrow> GetSessionResponse option" where
  "append_optimistic userMessage prev =
     map_option (\<lambda>s. s\<lparr>messages := messages s @ [(''user'', userMessage)]\<rparr>) prev"

definition apply_response :: "SendMessageResponse \<Rightarrow> GetSessionResponse option \<Rightarrow> GetSessionResponse option" where
  "apply_response response prev =
     (case m_messages response of
        None \<Rightarrow> prev
      | Some ms \<Rightarrow>
          map_option (\<lambda>s. s\<lparr>messages := ms,
                            checklist := (case m_checklist response of
                                            Some c \<Rightarrow> Some c
                                          | None \<Rightarrow> checklist s)\<rparr>) prev)"

definition remove_optimistic :: "GetSessionResponse option \<Rightarrow> GetSessionResponse option" where
  "remove_optimistic prev = map_option (\<lambda>s. s\<lparr>messages := butlast (messages s)\<rparr>) prev"

text \<open>
  \<^verbatim>\<open>handleSend\<close>, from the guard to the \<^verbatim>\<open>finally\<close> block. The loading message
  chosen from the words of the input is shown only while the request is pending and is
  reset at the end, so the model keeps the final value alone.
\<close>

definition handleSend ::
  "string \<Rightarrow> page_state \<Rightarrow> SendMessageResponse outcome \<Rightarrow> page_state \<times> effect list" where
  "handleSend sessionId p result =
     (if trim (inputValue p) = [] \<or> isSending p \<or> session p = None then (p, [])
      else
        (let userMessage = trim (inputValue p);
             p1 = p\<lparr>inputValue := [], isSending := True\<rparr>;
             p2 = p1\<lparr>session := append_optimistic userMessage (session p1)\<rparr>;
             request = SendMessage sessionId userMessage;
             (p3, out) =
               (case result of
                  Inr response \<Rightarrow> (p2\<lparr>session := apply_response response (session p2)\<rparr>, [request])
                | Inl err \<Rightarrow>
                    (p2\<lparr>session := remove_optimistic (session p2)\<rparr>,
                     [request, ConsoleError ''Failed to send message:'',
                      ConsoleError ''Error details:'',
                      Alert (''Failed to send message: '' @
                             (case err of Some msg \<Rightarrow> msg
                              | None \<Rightarrow> ''Failed to send message. Please try again.''))]))
         in (p3\<lparr>isSending := False, loadingMessage := ''Thinking...''\<rparr>, out)))"

text \<open>
  The page returns early while loading or without a session; otherwise it shows the
  checklist when the session has one and the transcript when it has none, and the input
  form only under \<^verbatim>\<open>!session.checklist\<close>.
\<close>

definition input_rendered :: "page_state \<Rightarrow> bool" where
  "input_rendered p =
     (\<not> pageLoading p \<and> (case session p of None \<Rightarrow> False | Some s \<Rightarrow> checklist s = None))"

definition checklist_rendered :: "page_state \<Rightarrow> bool" where
  "checklist_rendered p =
     (\<not> pageLoading p \<and> (case session p of None \<Rightarrow> False | Some s \<Rightarrow> checklist s \<noteq> None))"

text \<open>
  The user's events on the session view: typing into the text area, submitting the
  form (the button or the key chord of the text area), and an update reported by the
  checklist component through \<^verbatim>\<open>onUpdate\<close>.
\<close>

datatype page_event =
    TypeInput string
  | SubmitForm "SendMessageResponse outcome"
  | ChecklistUpdate ChecklistStructure

fun page_step :: "string \<Rightarrow> page_state \<Rightarrow> page_event \<Rightarrow> page_state \<times> effect list" where
  "page_step sessionId p (TypeInput v) =
     (if input_rendered p \<and> \<not> isSending p then (p\<lparr>inputValue := v\<rparr>, []) else (p, []))"
| "page_step sessionId p (SubmitForm result) =
     (if input_rendered p then handleSend sessionId p result else (p, []))"
| "page_step sessionId p (ChecklistUpdate c) =
     (if checklist_rendered p
      then (p\<lparr>session := map_option (\<lambda>s. s\<lparr>checklist := Some c\<rparr>) (session p)\<rparr>, [])
      else (p, []))"

fun page_steps :: "string \<Rightarrow> page_state \<Rightarrow> page_event list \<Rightarrow> page_state \<times> effect list" where
  "page_steps sessionId p [] = (p, [])"
| "page_steps sessionId p (ev # evs) =
     (let (p1, out1) = page_step sessionId p ev;
          (p2, out2) = page_steps sessionId p1 evs
      in (p2, out1 @ out2))"

fun is_SendMessage :: "effect \<Rightarrow> bool" where
  "is_SendMessage (SendMessage s c) = True"
| "is_SendMessage e = False"

definition has_checklist :: "page_state \<Rightarrow> bool" where
  "has_checklist p = (case session p of None \<Rightarrow> False | Some s \<Rightarrow> checklist s \<noteq> None)"

text \<open>
  What the checklist component shows of \<^verbatim>\<open>next_3_actions\<close> (lines 98 to 120): nothing
  for an empty list, otherwise the count and every entry, in order.
\<close>

definition render_next_3_actions :: "ChecklistStructure \<Rightarrow> (nat \<times> string list) option" where
  "render_next_3_actions c =
     (if length (next_3_actions c) > 0
      then Some (length (next_3_actions c), next_3_actions c) else None)"

section \<open>The backend's side, from the spec\<close>

text \<open>
  Modelled from the spec: the knowledge-test sub-dialogue of the backend (the handlers
  of \<^verbatim>\<open>POST /sessions/{id}/interview/start\<close> and
  \<^verbatim>\<open>POST /sessions/{id}/interview/{todoId}/answer\<close> are not among the source files).
  Section 4.5: the states are \<open>not_started\<close>, \<open>asking(n)\<close> and \<open>complete\<close>, and
  \<open>total\<close> is fixed at 4. \<open>start\<close> requires a UUID-shaped id (InvalidId otherwise, no
  state created) and enters \<open>asking(1)\<close> with the first question. \<open>answer\<close> evaluates
  the answer; if \<open>n < total\<close> it asks a new question and advances to \<open>asking(n + 1)\<close>,
  if \<open>n = total\<close> it requests the summary (rating, pass, feedback) and enters
  \<open>complete\<close>, which accepts no further answer (InvalidState). What the LLM gateway
  returns in a turn is an input of the transition.
\<close>

datatype srv_error = InvalidId | InvalidState | NotFound

datatype sub_dialogue = NotStarted | Asking nat "string list" | Complete rat bool

definition total :: nat where
  "total = 4"

record llm_turn =
  next_question :: string
  answer_feedback :: string
  summary_rating :: rat
  summary_passed :: bool
  summary_feedback :: string

definition sub_start :: "string \<Rightarrow> string \<Rightarrow> srv_error + sub_dialogue \<times> InterviewResponse" where
  "sub_start todo_id q =
     (if \<not> uuid_shaped todo_id then Inl InvalidId
      else Inr (Asking 1 [q],
                \<lparr>r_question = Some \<lparr>question = q, question_number = 1, total_questions = total\<rparr>,
                 r_feedback = None, is_complete = False, overall_feedback = None,
                 r_rating = None, r_passed = None\<rparr>))"

definition sub_answer ::
  "sub_dialogue \<Rightarrow> llm_turn \<Rightarrow> string \<Rightarrow> srv_error + sub_dialogue \<times> InterviewResponse" where
  "sub_answer sd t a =
     (case sd of
        NotStarted \<Rightarrow> Inl NotFound
      | Complete r p \<Rightarrow> Inl InvalidState
      | Asking n asked \<Rightarrow>
          if n < total then
            Inr (Asking (Suc n) (asked @ [next_question t]),
                 \<lparr>r_question = Some \<lparr>question = next_question t, question_number = Suc n,
                                     total_questions = total\<rparr>,
                  r_feedback = Some (answer_feedback t), is_complete = False,
                  overall_feedback = None, r_rating = None, r_passed = None\<rparr>)
          else if n = total then
            Inr (Complete (summary_rating t) (summary_passed t),
                 \<lparr>r_question = None, r_feedback = Some (answer_feedback t), is_complete = True,
                  overall_feedback = Some (summary_feedback t),
                  r_rating = Some (summary_rating t), r_passed = Some (summary_passed t)\<rparr>)
          else Inl InvalidState)"

text \<open>
  The modal of the source in dialogue with that sub-dialogue: the user types an answer
  and submits it; when the modal sends the request, the sub-dialogue makes its
  transition and the modal receives the response (or the error). Without a request the
  sub-dialogue stays as it is.
\<close>

definition to_outcome :: "srv_error + sub_dialogue \<times> InterviewResponse \<Rightarrow> InterviewResponse outcome" where
  "to_outcome res =
     (case res of Inl e \<Rightarrow> Inl (Some ''Failed to answer question'') | Inr (sd, response) \<Rightarrow> Inr response)"

definition dialogue_start ::
  "string \<Rightarrow> string \<Rightarrow> string \<Rightarrow> string \<Rightarrow> (sub_dialogue \<times> modal_state) \<times> effect list" where
  "dialogue_start sessionId tid ttext q =
     (let res = sub_start tid q;
          (m, out) = modal_step sessionId tid ttext initial_modal (ClickStart (to_outcome res))
      in (((case res of Inr (sd, response) \<Rightarrow>
              if list_ex (\<lambda>e. e = StartInterview sessionId tid ttext) out then sd else NotStarted
            | Inl e \<Rightarrow> NotStarted), m), out))"

definition dialogue_answer ::
  "string \<Rightarrow> string \<Rightarrow> string \<Rightarrow> sub_dialogue \<times> modal_state \<Rightarrow> string \<times> llm_turn \<Rightarrow>
   (sub_dialogue \<times> modal_state) \<times> effect list" where
  "dialogue_answer sessionId tid ttext st turn =
     (let (m1, out1) = modal_step sessionId tid ttext (snd st) (TypeAnswer (fst turn));
          res = sub_answer (fst st) (snd turn) (answer m1);
          (m2, out2) = modal_step sessionId tid ttext m1 (Submit (to_outcome res))
      in (((case res of Inr (sd, response) \<Rightarrow> if list_ex is_AnswerRequest out2 then sd else fst st
            | Inl e \<Rightarrow> fst st), m2), out1 @ out2))"

fun dialogue_answers ::
  "string \<Rightarrow> string \<Rightarrow> string \<Rightarrow> sub_dialogue \<times> modal_state \<Rightarrow> (string \<times> llm_turn) list \<Rightarrow>
   (sub_dialogue \<times> modal_state) \<times> effect list" where
  "dialogue_answers sessionId tid ttext st [] = (st, [])"
| "dialogue_answers sessionId tid ttext st (turn # turns) =
     (let (st1, out1) = dialogue_answer sessionId tid ttext st turn;
          (st2, out2) = dialogue_answers sessionId tid ttext st1 turns
      in (st2, out1 @ out2))"

text \<open>
  Modelled from the spec: the validator's rule for \<open>next_3_actions\<close> (the validator is
  part of the backend, which is not among the source files). Section 4.1:
  \<open>next_3_actions\<close> is truncated to at most 3 entries, never padded.
\<close>

definition validate_next_3_actions :: "ChecklistStructure \<Rightarrow> ChecklistStructure" where
  "validate_next_3_actions c = c\<lparr>next_3_actions := take 3 (next_3_actions c)\<rparr>"

text \<open>
  Modelled from the spec: the carry-forward of a regeneration (regeneration is done by
  the backend, which is not among the source files). Sections 4.3 and 9: an explicit
  reconciliation pass over the newly generated checklist; a new item whose normalized
  text matches the normalized text of an existing item takes over the done status of
  that item. The spec does not fix the normalization, so it is the parameter
  \<open>normalize_text\<close>.
\<close>

definition carried_done :: "(string \<Rightarrow> string) \<Rightarrow> ChecklistStructure \<Rightarrow> TodoItem \<Rightarrow> bool" where
  "carried_done normalize_text old i =
     list_ex (\<lambda>item. status item = Done \<and> normalize_text (item_text item) = normalize_text (item_text i))
             (all_items old)"

definition carry_forward ::
  "(string \<Rightarrow> string) \<Rightarrow> ChecklistStructure \<Rightarrow> ChecklistStructure \<Rightarrow> ChecklistStructure" where
  "carry_forward normalize_text old new =
     new\<lparr>groups := map (\<lambda>g. g\<lparr>items := map (\<lambda>i. if carried_done normalize_text old i
                                                      then i\<lparr>status := Done\<rparr> else i) (items g)\<rparr>)
                        (groups new)\<rparr>"

section \<open>Example data\<close>

definition ex_item :: "string \<Rightarrow> string \<Rightarrow> string \<Rightarrow> status \<Rightarrow> TodoItem" where
  "ex_item i g t s =
     \<lparr>item_id = i, group_key = g, item_text = t, status = s,
      priority = Some High, estimate_minutes = Some 30, rationale = None\<rparr>"

definition ex_checklist :: ChecklistStructure where
  "ex_checklist =
     \<lparr>title = ''Frontend interview'', event_type = ''interview'', assumptions = [],
      groups =
        [\<lparr>key = ''context'', label = ''Context Understanding'', items = []\<rparr>,
         \<lparr>key = ''skills'', label = ''Skills / Knowledge Prep'', items =
            [ex_item ''123e4567-e89b-12d3-a456-426614174000'' ''skills'' ''Review React hooks'' Todo,
             ex_item ''123e4567-e89b-12d3-a456-426614174001'' ''skills'' ''Practice CSS layout'' Done]\<rparr>,
         \<lparr>key = ''evidence'', label = ''Evidence & Examples'', items =
            [ex_item ''123e4567-e89b-12d3-a456-426614174002'' ''evidence'' ''Write STAR stories'' Todo]\<rparr>],
      next_3_actions = [''Review React hooks'']\<rparr>"

definition ex_state :: checklist_state where
  "ex_state = \<lparr>cl = ex_checklist, updatingIds = {}, interviewTodoId = None, interviewTodoText = None\<rparr>"

definition ex_todo :: TodoItem where
  "ex_todo = ex_item ''123e4567-e89b-12d3-a456-426614174000'' ''skills'' ''Review React hooks'' Todo"

definition ex_star :: TodoItem where
  "ex_star = ex_item ''123e4567-e89b-12d3-a456-426614174002'' ''evidence'' ''Write STAR stories'' Todo"

definition ex_page :: page_state where
  "ex_page =
     \<lparr>session = Some \<lparr>session_id = ''s1'', created_at = ''2024-01-01'', s_event_type = ''interview'',
                       s_title = ''Frontend interview'',
                       user_goal_text = ''I have a frontend interview in 10 days'',
                       s_context = [], checklist = None,
                       messages = [(''user'', ''I have a frontend interview in 10 days''),
                                   (''assistant'', ''Can you share the job description?'')]\<rparr>,
      pageLoading = False, isSending = False, loadingMessage = ''Thinking...'',
      inputValue = '' Here is the job description ''\<rparr>"

definition ex_ready_page :: page_state where
  "ex_ready_page =
     ex_page\<lparr>session := map_option (\<lambda>s. s\<lparr>checklist := Some ex_checklist\<rparr>) (session ex_page)\<rparr>"

definition ex_regenerated :: ChecklistStructure where
  "ex_regenerated =
     \<lparr>title = ''Frontend interview'', event_type = ''interview'', assumptions = [],
      groups =
        [\<lparr>key = ''skills'', label = ''Skills / Knowledge Prep'', items =
            [ex_item ''123e4567-e89b-12d3-a456-426614174010'' ''skills'' ''Review React hooks'' Todo,
             ex_item ''123e4567-e89b-12d3-a456-426614174011'' ''skills'' '' Practice CSS layout '' Todo]\<rparr>],
      next_3_actions = []\<rparr>"



definition ex_turn :: "string \<Rightarrow> string \<times> llm_turn" where
  "ex_turn a =
     (a, \<lparr>next_question = ''And what about '' @ a @ ''?'', answer_feedback = ''Good.'',
          summary_rating = 8, summary_passed = True, summary_feedback = ''Solid answers.''\<rparr>)"

section \<open>Measures and invariants used in the proofs\<close>


definition count_requests :: "effect list \<Rightarrow> nat" where
  "count_requests out = length (filter is_AnswerRequest out)"

text \<open>The number of turns whose answer is not blank: the answers the modal submits.\<close>

definition answered :: "(string \<times> llm_turn) list \<Rightarrow> nat" where
  "answered turns = length (filter (\<lambda>turn. trim (fst turn) \<noteq> []) turns)"

definition asking_inv :: "nat \<Rightarrow> sub_dialogue \<times> modal_state \<Rightarrow> bool" where
  "asking_inv n st =
     ((case fst st of Asking k asked \<Rightarrow> k = n | _ \<Rightarrow> False) \<and>
      \<not> isComplete (snd st) \<and> \<not> isLoading (snd st) \<and>
      map_option question_number (currentQuestion (snd st)) = Some n)"

definition complete_inv :: "sub_dialogue \<times> modal_state \<Rightarrow> bool" where
  "complete_inv st =
     ((case fst st of Complete r p \<Rightarrow> True | _ \<Rightarrow> False) \<and> isComplete (snd st) \<and>
      map_option question_number (currentQuestion (snd st)) = Some total)"

text \<open>The UUID shape piece by piece, as the regular expression reads it.\<close>

definition uuid_segments :: "string \<Rightarrow> bool" where
  "uuid_segments s =
     (length s = 36 \<and>
      (\<forall>i<8. is_hex_ci (s ! i)) \<and> s ! 8 = CHR ''-'' \<and>
      (\<forall>i<4. is_hex_ci (s ! (9 + i))) \<and> s ! 13 = CHR ''-'' \<and>
      (\<forall>i<4. is_hex_ci (s ! (14 + i))) \<and> s ! 18 = CHR ''-'' \<and>
      (\<forall>i<4. is_hex_ci (s ! (19 + i))) \<and> s ! 23 = CHR ''-'' \<and>
      (\<forall>i<12. is_hex_ci (s ! (24 + i))))"

section \<open>Rendering of the groups and of the Test Knowledge button\<close>

lemma handleToggleTodo_run:
  "handleToggleTodo sessionId st item ok =
     (let newStatus = (if status item = Done then Todo else Done);
          updatedChecklist = toggled_checklist (cl st) item newStatus
      in ((if ok then st\<lparr>cl := updatedChecklist\<rparr> else st)
            \<lparr>updatingIds := insert (item_id item) (updatingIds st) - {item_id item}\<rparr>,
          UpdateTodo sessionId (item_id item) newStatus #
          (if ok then [OnUpdate updatedChecklist]
           else [ConsoleError ''Failed to update todo:'',
                 Alert ''Failed to update todo. Please try again.''])))"
  by (simp add: handleToggleTodo_def handleToggleTodo_click_def handleToggleTodo_resolve_def Let_def)

lemma length_render_groups: "length (render_groups st) = length (groups (cl st))"
  by (simp add: render_groups_def)

lemma render_groups_nth:
  "gi < length (groups (cl st)) \<Longrightarrow>
   render_groups st ! gi = render_group (updatingIds st) (groups (cl st) ! gi)"
  by (simp add: render_groups_def)

text \<open>
  Claim C9. For every group of the checklist: a group whose item list is empty renders
  nothing, and a group with at least one item renders its card, with the group's key and
  label and one row per item, in order.
\<close>

theorem empty_groups_suppressed:
  assumes "gi < length (groups (cl st))"
  shows "gi < length (render_groups st) \<and>
     (case render_groups st ! gi of
        None \<Rightarrow> items (groups (cl st) ! gi) = []
      | Some gc \<Rightarrow> items (groups (cl st) ! gi) \<noteq> [] \<and> card_key gc = key (groups (cl st) ! gi)
                  \<and> card_label gc = label (groups (cl st) ! gi)
                  \<and> map view_item (card_rows gc) = items (groups (cl st) ! gi))"
  using assms
  by (simp add: length_render_groups render_groups_nth render_group_def render_item_def comp_def)

theorem empty_groups_suppressed_witness:
  "render_groups ex_state ! 0 = None \<and> items (groups (cl ex_state) ! 0) = [] \<and>
   render_groups ex_state ! 2 \<noteq> None \<and> items (groups (cl ex_state) ! 2) \<noteq> []"
  using empty_groups_suppressed[of 0 ex_state] empty_groups_suppressed[of 2 ex_state]
  by (simp add: ex_state_def ex_checklist_def render_groups_def render_group_def)

lemma row_at_item:
  assumes "gi < length (groups (cl st))" "ii < length (items (groups (cl st) ! gi))"
  shows "row_at st gi ii =
         Some (render_item (updatingIds st) (groups (cl st) ! gi) (items (groups (cl st) ! gi) ! ii))"
  using assms by (auto simp: row_at_def length_render_groups render_groups_nth render_group_def)

text \<open>
  Claim C10. For the item in row \<open>ii\<close> of group \<open>gi\<close>: the Test Knowledge button is
  rendered exactly when the key of the group that holds the item is \<open>skills\<close> and the
  item is not done. For an item of any other group, and for a done item, a click on that
  button changes nothing (no knowledge test starts); for an open item of the skills
  group the click runs the button's handler. The only other control of a row, the
  toggle, never opens a knowledge test.
\<close>

theorem test_knowledge_only_for_open_skills_items:
  assumes "gi < length (groups (cl st))" "ii < length (items (groups (cl st) ! gi))"
  shows "(let g = groups (cl st) ! gi; i = items g ! ii in
           map_option view_item (row_at st gi ii) = Some i \<and>
           map_option test_button (row_at st gi ii) = Some (key g = ''skills'' \<and> status i \<noteq> Done) \<and>
           (key g \<noteq> ''skills'' \<or> status i = Done \<longrightarrow> click_test_knowledge st gi ii = (st, [])) \<and>
           (key g = ''skills'' \<and> status i \<noteq> Done \<longrightarrow>
              click_test_knowledge st gi ii = onTestKnowledgeClick st i) \<and>
           interviewTodoId (fst (click_toggle sid st gi ii ok)) = interviewTodoId st)"
  using row_at_item[OF assms]
  by (auto simp: Let_def click_test_knowledge_def click_toggle_def render_item_def handleToggleTodo_run)

theorem test_knowledge_only_for_open_skills_items_witness:
  "status (items (groups (cl ex_state) ! 1) ! 1) = Done \<and>
   click_test_knowledge ex_state 1 1 = (ex_state, []) \<and>
   key (groups (cl ex_state) ! 2) = ''evidence'' \<and>
   click_test_knowledge ex_state 2 0 = (ex_state, [])"
proof -
  have g: "(1::nat) < length (groups (cl ex_state))" "(2::nat) < length (groups (cl ex_state))"
    by (simp_all add: ex_state_def ex_checklist_def)
  have i: "(1::nat) < length (items (groups (cl ex_state) ! 1))"
          "(0::nat) < length (items (groups (cl ex_state) ! 2))"
    by (simp_all add: ex_state_def ex_checklist_def)
  have k: "status (items (groups (cl ex_state) ! 1) ! 1) = Done"
          "key (groups (cl ex_state) ! 2) = ''evidence''"
    by (simp_all add: ex_state_def ex_checklist_def ex_item_def)
  show ?thesis
    using k test_knowledge_only_for_open_skills_items[OF g(1) i(1), of "''s1''" True]
          test_knowledge_only_for_open_skills_items[OF g(2) i(2), of "''s1''" True]
    by (simp add: Let_def)
qed

section \<open>Toggling an item\<close>

lemma id_eq_iff:
  assumes "distinct (map item_id (all_items c))" "item \<in> set (all_items c)" "i \<in> set (all_items c)"
  shows "(item_id i = item_id item) = (i = item)"
  using assms by (auto simp: distinct_map inj_on_def)

lemma toggled_distinct:
  assumes d: "distinct (map item_id (all_items c))" and m: "item \<in> set (all_items c)"
  shows "toggled_checklist c item s =
         c\<lparr>groups := map (\<lambda>g. g\<lparr>items := map (\<lambda>i. if i = item then item\<lparr>status := s\<rparr> else i)
                                              (items g)\<rparr>) (groups c)\<rparr>"
proof -
  have "\<And>g i. g \<in> set (groups c) \<Longrightarrow> i \<in> set (items g) \<Longrightarrow> (item_id i = item_id item) = (i = item)"
  proof -
    fix g i assume "g \<in> set (groups c)" "i \<in> set (items g)"
    then have "i \<in> set (all_items c)" by (auto simp: all_items_def)
    then show "(item_id i = item_id item) = (i = item)" using id_eq_iff[OF d m] by blast
  qed
  then have "map (\<lambda>g. g\<lparr>items := map (\<lambda>i. if item_id i = item_id item then i\<lparr>status := s\<rparr> else i)
                                      (items g)\<rparr>) (groups c)
     = map (\<lambda>g. g\<lparr>items := map (\<lambda>i. if i = item then item\<lparr>status := s\<rparr> else i) (items g)\<rparr>) (groups c)"
    by (intro map_cong refl arg_cong2[where f="\<lambda>a b. b\<lparr>items := a\<rparr>"]) auto
  then show ?thesis by (simp add: toggled_checklist_def)
qed

lemma toggled_back:
  assumes "\<forall>i \<in> set (all_items c). item_id i = item_id item \<longrightarrow> status i = s0"
  shows "toggled_checklist (toggled_checklist c item s) (item\<lparr>status := s\<rparr>) s0 = c"
proof -
  have "\<And>g. g \<in> set (groups c) \<Longrightarrow>
     map ((\<lambda>i. if item_id i = item_id item then i\<lparr>status := s0\<rparr> else i) \<circ>
          (\<lambda>i. if item_id i = item_id item then i\<lparr>status := s\<rparr> else i)) (items g) = items g"
    using assms by (intro map_idI) (auto simp: all_items_def)
  then have "map ((\<lambda>g. g\<lparr>items := map (\<lambda>i. if item_id i = item_id item then i\<lparr>status := s0\<rparr> else i)
                                        (items g)\<rparr>) \<circ>
      (\<lambda>g. g\<lparr>items := map (\<lambda>i. if item_id i = item_id item then i\<lparr>status := s\<rparr> else i) (items g)\<rparr>))
        (groups c) = groups c"
    by (intro map_idI) (simp add: comp_def)
  then show ?thesis by (simp add: toggled_checklist_def)
qed

text \<open>
  Two toggles that do not overlap. In a checklist whose item ids are distinct, take an
  open item and toggle it twice, each PATCH being answered (with success) before anything
  else happens. After the first toggle the checklist differs from the original only in
  that item, and the item only in its status, now done; after the second toggle the
  checklist is the original one again.
\<close>

lemma uninterrupted_toggle_round_trip:
  assumes d: "distinct (map item_id (all_items (cl st)))"
    and m: "item \<in> set (all_items (cl st))"
    and s: "status item = Todo"
  shows "(let r1 = handleToggleTodo sid st item True;
              r2 = handleToggleTodo sid (fst r1) (item\<lparr>status := Done\<rparr>) True
          in cl (fst r1) = (cl st)\<lparr>groups := map (\<lambda>g. g\<lparr>items :=
                   map (\<lambda>i. if i = item then item\<lparr>status := Done\<rparr> else i) (items g)\<rparr>) (groups (cl st))\<rparr>
           \<and> snd r1 = [UpdateTodo sid (item_id item) Done, OnUpdate (cl (fst r1))]
           \<and> cl (fst r2) = cl st
           \<and> snd r2 = [UpdateTodo sid (item_id item) Todo, OnUpdate (cl st)])"
proof -
  have a: "\<forall>i \<in> set (all_items (cl st)). item_id i = item_id item \<longrightarrow> status i = Todo"
    using id_eq_iff[OF d m] s by auto
  have b: "toggled_checklist (toggled_checklist (cl st) item Done) (item\<lparr>status := Done\<rparr>) Todo = cl st"
    by (rule toggled_back[OF a])
  show ?thesis
    using b s toggled_distinct[OF d m, of Done]
    by (simp add: handleToggleTodo_run Let_def)
qed

text \<open>
  Claim C5. The claim says that a toggle modifies no other item. The source breaks this
  when two toggles overlap. In the example checklist the user clicks the toggle of the
  open item \<open>ex_todo\<close> and, while its PATCH is pending, the toggle of the open item
  \<open>ex_star\<close> of another group; that button is enabled, since only the id of
  \<open>ex_todo\<close> is in \<open>updatingIds\<close>, and the checklist of that render is still the
  original one. The first PATCH is answered: \<open>ex_todo\<close> is done. The second PATCH is
  answered: \<open>ex_star\<close> is done, and \<open>ex_todo\<close>, which the second toggle never named,
  is back to todo, because the second half of the handler writes the checklist of the
  render of its click.
\<close>

theorem interleaved_toggle_reverts_other_item:
  "(let s1 = fst (handleToggleTodo_click ''s1'' ex_state ex_todo);
        s2 = fst (handleToggleTodo_click ''s1'' s1 ex_star);
        s3 = fst (handleToggleTodo_resolve (cl ex_state) s2 ex_todo True);
        s4 = fst (handleToggleTodo_resolve (cl s1) s3 ex_star True)
    in map_option view_item (row_at s1 2 0) = Some ex_star \<and>
       map_option toggle_disabled (row_at s1 2 0) = Some False \<and>
       cl s1 = cl ex_state \<and>
       map_option status (find_item (cl s3) (item_id ex_todo)) = Some Done \<and>
       map_option status (find_item (cl s4) (item_id ex_todo)) = Some Todo \<and>
       map_option status (find_item (cl s4) (item_id ex_star)) = Some Done)"
  by (simp add: Let_def handleToggleTodo_click_def handleToggleTodo_resolve_def toggled_checklist_def
        ex_state_def ex_checklist_def ex_todo_def ex_star_def ex_item_def
        row_at_def render_groups_def render_group_def render_item_def find_item_def all_items_def)

section \<open>The regular expression and the UUID shape\<close>

lemma match_hex_Some:
  "(match_hex n s = Some r) = (n \<le> length s \<and> (\<forall>i<n. is_hex_ci (s ! i)) \<and> r = drop n s)"
  by (induction n s rule: match_hex.induct) (auto simp: less_Suc_eq_0_disj)

lemma match_lit_Some:
  "(match_lit l s = Some r) = (0 < length s \<and> s ! 0 = l \<and> r = drop 1 s)"
  by (cases s) auto

lemma regex_segments: "uuidRegex_test s = uuid_segments s"
proof -
  have "uuidRegex_test s = (Option.bind (Option.bind (Option.bind (Option.bind (Option.bind (Option.bind
            (Option.bind (Option.bind (match_hex 8 s)
              (match_lit CHR ''-'')) (match_hex 4))
              (match_lit CHR ''-'')) (match_hex 4))
              (match_lit CHR ''-'')) (match_hex 4))
              (match_lit CHR ''-'')) (match_hex 12) = Some [])"
    by (simp add: uuidRegex_test_def split: option.splits)
  also have "\<dots> = uuid_segments s"
    unfolding bind_eq_Some_conv match_hex_Some match_lit_Some uuid_segments_def
    by (auto simp: add.commute)
  finally show ?thesis .
qed

lemma segments_shaped: "uuid_segments s = uuid_shaped s"
proof
  assume a: "uuid_segments s"
  show "uuid_shaped s"
    unfolding uuid_shaped_def
  proof (intro conjI allI impI)
    show "length s = 36" using a by (simp add: uuid_segments_def)
  next
    fix i :: nat assume i: "i < 36"
    consider "i < 8" | "i = 8" | "9 \<le> i \<and> i < 13" | "i = 13" | "14 \<le> i \<and> i < 18" | "i = 18"
      | "19 \<le> i \<and> i < 23" | "i = 23" | "24 \<le> i \<and> i < 36" using i by linarith
    then show "if i = 8 \<or> i = 13 \<or> i = 18 \<or> i = 23 then s ! i = CHR ''-'' else is_hex_ci (s ! i)"
    proof cases
      case 1 then show ?thesis using a by (simp add: uuid_segments_def)
    next
      case 2 then show ?thesis using a by (simp add: uuid_segments_def)
    next
      case 3
      then have "i - 9 < 4" "9 + (i - 9) = i" by auto
      then have "is_hex_ci (s ! i)" using a unfolding uuid_segments_def by metis
      then show ?thesis using 3 by simp
    next
      case 4 then show ?thesis using a by (simp add: uuid_segments_def)
    next
      case 5
      then have "i - 14 < 4" "14 + (i - 14) = i" by auto
      then have "is_hex_ci (s ! i)" using a unfolding uuid_segments_def by metis
      then show ?thesis using 5 by simp
    next
      case 6 then show ?thesis using a by (simp add: uuid_segments_def)
    next
      case 7
      then have "i - 19 < 4" "19 + (i - 19) = i" by auto
      then have "is_hex_ci (s ! i)" using a unfolding uuid_segments_def by metis
      then show ?thesis using 7 by simp
    next
      case 8 then show ?thesis using a by (simp add: uuid_segments_def)
    next
      case 9
      then have "i - 24 < 12" "24 + (i - 24) = i" by auto
      then have "is_hex_ci (s ! i)" using a unfolding uuid_segments_def by metis
      then show ?thesis using 9 by simp
    qed
  qed
next
  assume a: "uuid_shaped s"
  then have l: "length s = 36"
    and h: "\<And>i. i < 36 \<Longrightarrow> (if i = 8 \<or> i = 13 \<or> i = 18 \<or> i = 23 then s ! i = CHR ''-'' else is_hex_ci (s ! i))"
    by (simp_all add: uuid_shaped_def)
  have d: "s ! 8 = CHR ''-''" "s ! 13 = CHR ''-''" "s ! 18 = CHR ''-''" "s ! 23 = CHR ''-''"
    using h[of 8] h[of 13] h[of 18] h[of 23] by simp_all
  have x: "\<And>i. i < 36 \<Longrightarrow> i \<noteq> 8 \<Longrightarrow> i \<noteq> 13 \<Longrightarrow> i \<noteq> 18 \<Longrightarrow> i \<noteq> 23 \<Longrightarrow> is_hex_ci (s ! i)"
    using h by presburger
  show "uuid_segments s"
    unfolding uuid_segments_def using l d by (auto intro!: x)
qed

lemma uuidRegex_test_shaped: "uuidRegex_test s = uuid_shaped s"
  by (simp add: regex_segments segments_shaped)

text \<open>
  Claim C3. The test of the source accepts an id exactly when it has the canonical
  UUID text form. For an id that has not: the Test Knowledge click leaves the component
  as it is (no modal opens) and alerts that the checklist must be regenerated, and
  \<open>handleStart\<close> sends no start request, leaves the modal's state as it is, alerts
  the same and closes the modal. For an id that has the form: the click opens the modal
  for that item, and \<open>handleStart\<close> sends the start request.
\<close>

theorem uuid_guard:
  "uuidRegex_test tid = uuid_shaped tid \<and>
   (\<not> uuid_shaped tid \<longrightarrow>
      handleStart sid tid ttext m result =
        (m, [Alert ''Invalid checklist item ID detected. Please refresh the page to regenerate the checklist with proper IDs, then try again.'',
             OnClose]) \<and>
      (item_id item = tid \<longrightarrow>
         onTestKnowledgeClick st item =
           (st, [ConsoleError ''Invalid todo ID format:'',
                 Alert ''Invalid checklist item ID. Please refresh the page to regenerate the checklist.'']))) \<and>
   (uuid_shaped tid \<longrightarrow>
      (\<exists>out. snd (handleStart sid tid ttext m result) = StartInterview sid tid ttext # out) \<and>
      (item_id item = tid \<longrightarrow>
         onTestKnowledgeClick st item =
           (st\<lparr>interviewTodoId := Some tid, interviewTodoText := Some (item_text item)\<rparr>, [])))"
  by (cases result)
     (auto simp: uuidRegex_test_shaped handleStart_def onTestKnowledgeClick_def Let_def
        split: option.splits)

theorem uuid_guard_witness:
  "\<not> uuid_shaped ''not-a-uuid'' \<and>
   handleStart ''s1'' ''not-a-uuid'' ''Review React hooks'' initial_modal (Inl None) =
     (initial_modal,
      [Alert ''Invalid checklist item ID detected. Please refresh the page to regenerate the checklist with proper IDs, then try again.'',
       OnClose]) \<and>
   uuid_shaped (item_id ex_todo) \<and>
   interviewTodoId (fst (onTestKnowledgeClick ex_state ex_todo)) = Some (item_id ex_todo)"
proof -
  have n: "\<not> uuid_shaped ''not-a-uuid''"
    by (simp add: uuid_shaped_def)
  have "uuidRegex_test ''123e4567-e89b-12d3-a456-426614174000''"
    by (simp add: uuidRegex_test_def is_hex_ci_def eval_nat_numeral)
  then have y: "uuid_shaped (item_id ex_todo)"
    using uuid_guard[of "item_id ex_todo"] by (simp add: ex_todo_def ex_item_def)
  show ?thesis
    using n y uuid_guard[of "''not-a-uuid''" "''s1''" "''Review React hooks''" initial_modal "Inl None"]
          uuid_guard[of "item_id ex_todo" "''s1''" "''Review React hooks''" initial_modal "Inl None"
                     ex_todo ex_state]
    by simp
qed

section \<open>Sending a message\<close>

lemma remove_append_optimistic: "remove_optimistic (append_optimistic u s) = s"
  by (cases s) (simp_all add: remove_optimistic_def append_optimistic_def)

text \<open>
  Claim C6. When the send-message request fails, the session after \<open>handleSend\<close> is
  the session before it: removing the last message undoes the optimistic append, so the
  transcript is the one before the call, and the checklist is not touched. When the
  request was sent, the page differs from the page before the call only in the input
  field (cleared) and the flags reset by the \<^verbatim>\<open>finally\<close> block.
\<close>

theorem failed_send_restores_session:
  "session (fst (handleSend sid p (Inl err))) = session p \<and>
   remove_optimistic (append_optimistic (trim (inputValue p)) (session p)) = session p \<and>
   (trim (inputValue p) \<noteq> [] \<and> \<not> isSending p \<and> session p \<noteq> None \<longrightarrow>
      handleSend sid p (Inl err) =
        (p\<lparr>inputValue := [], isSending := False, loadingMessage := ''Thinking...''\<rparr>,
         [SendMessage sid (trim (inputValue p)), ConsoleError ''Failed to send message:'',
          ConsoleError ''Error details:'',
          Alert (''Failed to send message: '' @
                 (case err of Some msg \<Rightarrow> msg | None \<Rightarrow> ''Failed to send message. Please try again.''))]))"
  by (simp add: handleSend_def Let_def remove_append_optimistic)

theorem failed_send_restores_session_witness:
  "handleSend ''s1'' ex_page (Inl (Some ''Failed to send message: Bad Gateway - ''))
     = (ex_page\<lparr>inputValue := []\<rparr>,
        [SendMessage ''s1'' ''Here is the job description'', ConsoleError ''Failed to send message:'',
         ConsoleError ''Error details:'',
         Alert ''Failed to send message: Failed to send message: Bad Gateway - ''])"
proof -
  have g: "trim (inputValue ex_page) \<noteq> [] \<and> \<not> isSending ex_page \<and> session ex_page \<noteq> None"
    by (simp add: ex_page_def trim_def is_space_def)
  have e: "ex_page\<lparr>inputValue := [], isSending := False, loadingMessage := ''Thinking...''\<rparr>
             = ex_page\<lparr>inputValue := []\<rparr>"
    by (simp add: ex_page_def)
  have t: "trim (inputValue ex_page) = ''Here is the job description''"
    by (simp add: ex_page_def trim_def is_space_def)
  show ?thesis
    using g failed_send_restores_session[of "''s1''" ex_page "Some ''Failed to send message: Bad Gateway - ''"]
    by (simp add: e t)
qed

lemma ready_not_rendered: "has_checklist p \<Longrightarrow> \<not> input_rendered p"
  by (auto simp: has_checklist_def input_rendered_def split: option.splits)

lemma handleSend_keeps_checklist: "has_checklist p \<Longrightarrow> has_checklist (fst (handleSend sid p result))"
  by (cases result)
     (auto simp: has_checklist_def handleSend_def Let_def append_optimistic_def apply_response_def
        remove_optimistic_def split: option.splits)

lemma ready_page_step:
  "has_checklist p \<Longrightarrow> has_checklist (fst (page_step sid p ev)) \<and> snd (page_step sid p ev) = []"
  by (cases ev) (auto simp: ready_not_rendered has_checklist_def split: option.splits)

lemma ready_page_steps:
  "has_checklist p \<Longrightarrow> has_checklist (fst (page_steps sid p evs)) \<and> snd (page_steps sid p evs) = []"
proof (induction evs arbitrary: p)
  case Nil
  then show ?case by simp
next
  case (Cons ev evs)
  have 1: "has_checklist (fst (page_step sid p ev))" and 2: "snd (page_step sid p ev) = []"
    using ready_page_step[OF Cons.prems] by simp_all
  show ?case
    using Cons.IH[OF 1] 2 by (simp add: split_beta Let_def)
qed

text \<open>
  Claim C7. For a session that has a checklist: the input form is not rendered; whatever
  the user does on the session view (typing, submitting, updates coming from the
  checklist component), no request leaves the page, in particular no message is sent,
  and the session still has a checklist afterwards; and \<open>handleSend\<close> itself, whatever
  the response, never leaves the session without its checklist.
\<close>

theorem ready_session_sends_no_message:
  assumes "has_checklist p"
  shows "\<not> input_rendered p \<and>
         has_checklist (fst (page_steps sid p evs)) \<and>
         snd (page_steps sid p evs) = [] \<and>
         has_checklist (fst (handleSend sid p result))"
  using assms ready_not_rendered ready_page_steps handleSend_keeps_checklist by blast

theorem ready_session_sends_no_message_witness:
  "has_checklist ex_ready_page \<and>
   snd (page_steps ''s1'' ex_ready_page
          [TypeInput ''one more question'',
           SubmitForm (Inr \<lparr>m_session_id = ''s1'', m_message = (''assistant'', ''ok''),
                            m_messages = Some [], m_checklist = None\<rparr>)]) = []"
proof -
  have h: "has_checklist ex_ready_page"
    by (simp add: has_checklist_def ex_ready_page_def ex_page_def)
  show ?thesis
    using h ready_session_sends_no_message[OF h] by simp
qed

section \<open>The rules taken from the spec\<close>

text \<open>
  Claim C8. After validation \<open>next_3_actions\<close> has at most 3 entries: it is the first
  three entries of the list that was given, a list of at most 3 entries is left as it is
  (nothing is added), and the checklist component shows exactly that list, so at most 3
  actions.
\<close>

theorem next_3_actions_at_most_three:
  "length (next_3_actions (validate_next_3_actions c)) \<le> 3 \<and>
   next_3_actions (validate_next_3_actions c) = take 3 (next_3_actions c) \<and>
   (length (next_3_actions c) \<le> 3 \<longrightarrow> validate_next_3_actions c = c) \<and>
   (case render_next_3_actions (validate_next_3_actions c) of
      None \<Rightarrow> next_3_actions c = []
    | Some (n, shown) \<Rightarrow> n \<le> 3 \<and> n = length shown \<and> shown = take 3 (next_3_actions c))"
  by (auto simp: validate_next_3_actions_def render_next_3_actions_def)

theorem next_3_actions_at_most_three_witness:
  "validate_next_3_actions ex_checklist = ex_checklist \<and>
   next_3_actions (validate_next_3_actions (ex_checklist\<lparr>next_3_actions := [''a'', ''b'', ''c'', ''d'']\<rparr>))
     = [''a'', ''b'', ''c'']"
proof -
  have "length (next_3_actions ex_checklist) \<le> 3" by (simp add: ex_checklist_def)
  then show ?thesis
    using next_3_actions_at_most_three[of ex_checklist]
          next_3_actions_at_most_three[of "ex_checklist\<lparr>next_3_actions := [''a'', ''b'', ''c'', ''d'']\<rparr>"]
    by simp
qed

lemma carry_item:
  assumes "gi < length (groups new)" "ii < length (items (groups new ! gi))"
  shows "items (groups (carry_forward nt old new) ! gi) ! ii =
         (let i = items (groups new ! gi) ! ii in if carried_done nt old i then i\<lparr>status := Done\<rparr> else i)"
  using assms by (simp add: carry_forward_def Let_def)

text \<open>
  Claim C1. Let an item of the existing checklist be done, and let its normalized text
  equal the normalized text of the item in row \<open>ii\<close> of group \<open>gi\<close> of the newly
  generated checklist. Then in the regenerated checklist that row holds the new item with
  status done, everything else of the new item as generated; the groups and the texts of
  the regenerated checklist are those of the newly generated one.
\<close>

theorem carry_forward_preserves_done:
  assumes "item \<in> set (all_items old)" "status item = Done"
    and "gi < length (groups new)" "ii < length (items (groups new ! gi))"
    and "normalize_text (item_text item) = normalize_text (item_text (items (groups new ! gi) ! ii))"
  shows "status (items (groups (carry_forward normalize_text old new) ! gi) ! ii) = Done \<and>
         items (groups (carry_forward normalize_text old new) ! gi) ! ii
           = (items (groups new ! gi) ! ii)\<lparr>status := Done\<rparr> \<and>
         map key (groups (carry_forward normalize_text old new)) = map key (groups new) \<and>
         map item_text (all_items (carry_forward normalize_text old new)) = map item_text (all_items new)"
proof -
  have c: "carried_done normalize_text old (items (groups new ! gi) ! ii)"
    using assms(1,2,5) by (auto simp: carried_done_def list_ex_iff)
  have k: "map key (groups (carry_forward normalize_text old new)) = map key (groups new)"
    by (simp add: carry_forward_def comp_def)
  have t: "map item_text (all_items (carry_forward normalize_text old new)) = map item_text (all_items new)"
    by (simp add: carry_forward_def all_items_def map_concat comp_def if_distrib[of item_text] cong: if_cong)
  show ?thesis
    using c k t carry_item[OF assms(3,4), of normalize_text old] by (simp add: Let_def)
qed

theorem carry_forward_preserves_done_witness:
  "status (items (groups (carry_forward trim ex_checklist ex_regenerated) ! 0) ! 1) = Done \<and>
   item_text (items (groups (carry_forward trim ex_checklist ex_regenerated) ! 0) ! 1)
     = '' Practice CSS layout ''"
proof -
  let ?old = "ex_item ''123e4567-e89b-12d3-a456-426614174001'' ''skills'' ''Practice CSS layout'' Done"
  have a: "?old \<in> set (all_items ex_checklist)"
    by (simp add: ex_checklist_def all_items_def)
  have b: "status ?old = Done"
    by (simp add: ex_item_def)
  have c: "(0::nat) < length (groups ex_regenerated)"
    by (simp add: ex_regenerated_def)
  have d: "(1::nat) < length (items (groups ex_regenerated ! 0))"
    by (simp add: ex_regenerated_def)
  have e: "trim (item_text ?old) = trim (item_text (items (groups ex_regenerated ! 0) ! 1))"
    by (simp add: ex_regenerated_def ex_item_def trim_def is_space_def)
  have f: "item_text (items (groups ex_regenerated ! 0) ! 1) = '' Practice CSS layout ''"
    by (simp add: ex_regenerated_def ex_item_def)
  show ?thesis
    using carry_forward_preserves_done[OF a b c d e] f by simp
qed

section \<open>Completion of a knowledge test\<close>




















section \<open>Termination of the knowledge test\<close>

lemma start_inv:
  assumes "uuid_shaped tid"
  shows "asking_inv 1 (fst (dialogue_start sid tid ttext q))"
  using assms
  by (simp add: dialogue_start_def sub_start_def to_outcome_def modal_block_def initial_modal_def
        handleStart_def uuidRegex_test_shaped asking_inv_def)

lemma dialogue_answer_question:
  assumes "modal_block (snd st) = QuestionBlock" "\<not> isLoading (snd st)"
  shows "dialogue_answer sid tid ttext st turn =
     (let res = sub_answer (fst st) (snd turn) (fst turn);
          h = handleSubmitAnswer sid tid ((snd st)\<lparr>answer := fst turn\<rparr>) (to_outcome res)
      in (((case res of Inr (sd, response) \<Rightarrow> if list_ex is_AnswerRequest (snd h) then sd else fst st
            | Inl e \<Rightarrow> fst st), fst h), snd h))"
proof -
  have c: "\<not> isComplete (snd st)" "currentQuestion (snd st) \<noteq> None"
    using assms(1) by (auto simp: modal_block_def split: if_splits)
  show ?thesis
    using c assms(2)
    by (auto simp: dialogue_answer_def Let_def modal_block_def split_beta split: sum.splits)
qed

lemma asking_block:
  assumes "asking_inv n st"
  shows "modal_block (snd st) = QuestionBlock" "\<not> isLoading (snd st)"
  using assms by (auto simp: asking_inv_def modal_block_def)

lemma blank_turn:
  assumes "asking_inv n st" "trim (fst turn) = []"
  shows "asking_inv n (fst (dialogue_answer sid tid ttext st turn)) \<and>
         snd (dialogue_answer sid tid ttext st turn) = []"
proof -
  have h: "handleSubmitAnswer sid tid ((snd st)\<lparr>answer := fst turn\<rparr>) r = ((snd st)\<lparr>answer := fst turn\<rparr>, [])" for r
    using assms(2) by (simp add: handleSubmitAnswer_def)
  show ?thesis
    using assms(1) unfolding dialogue_answer_question[OF asking_block[OF assms(1)]] h Let_def
    by (auto simp: asking_inv_def split: sum.splits)
qed

lemma asking_turn:
  assumes "asking_inv n st" "trim (fst turn) \<noteq> []" "n < total"
  shows "asking_inv (Suc n) (fst (dialogue_answer sid tid ttext st turn)) \<and>
         count_requests (snd (dialogue_answer sid tid ttext st turn)) = 1"
proof -
  obtain asked where a: "fst st = Asking n asked"
    using assms(1) by (auto simp: asking_inv_def split: sub_dialogue.splits)
  show ?thesis
    using assms unfolding dialogue_answer_question[OF asking_block[OF assms(1)]] a Let_def
    by (simp add: asking_inv_def sub_answer_def to_outcome_def handleSubmitAnswer_def Let_def
          count_requests_def string_or_null_def)
qed

lemma last_turn:
  assumes "asking_inv total st" "trim (fst turn) \<noteq> []"
  shows "complete_inv (fst (dialogue_answer sid tid ttext st turn)) \<and>
         count_requests (snd (dialogue_answer sid tid ttext st turn)) = 1"
proof -
  obtain asked where a: "fst st = Asking total asked"
    using assms(1) by (auto simp: asking_inv_def split: sub_dialogue.splits)
  show ?thesis
    using assms unfolding dialogue_answer_question[OF asking_block[OF assms(1)]] a Let_def
    by (simp add: asking_inv_def complete_inv_def sub_answer_def to_outcome_def handleSubmitAnswer_def
          Let_def count_requests_def split: bool.splits)
qed

lemma complete_turn:
  assumes "complete_inv st"
  shows "dialogue_answer sid tid ttext st turn = (st, [])"
proof -
  obtain r p where a: "fst st = Complete r p"
    using assms by (auto simp: complete_inv_def split: sub_dialogue.splits)
  have b: "modal_block (snd st) = ResultBlock"
    using assms by (simp add: complete_inv_def modal_block_def)
  show ?thesis
    using a b by (cases st) (simp add: dialogue_answer_def sub_answer_def to_outcome_def)
qed

lemma complete_run:
  "complete_inv st \<Longrightarrow> dialogue_answers sid tid ttext st turns = (st, [])"
  by (induction turns) (simp_all add: complete_turn)

lemma count_requests_append: "count_requests (a @ b) = count_requests a + count_requests b"
  by (simp add: count_requests_def)

lemma asking_run:
  assumes "asking_inv n st" "n \<le> total"
  shows "(if n + answered turns \<le> total
          then asking_inv (n + answered turns) (fst (dialogue_answers sid tid ttext st turns)) \<and>
               count_requests (snd (dialogue_answers sid tid ttext st turns)) = answered turns
          else complete_inv (fst (dialogue_answers sid tid ttext st turns)) \<and>
               count_requests (snd (dialogue_answers sid tid ttext st turns)) = Suc total - n)"
  using assms
proof (induction turns arbitrary: n st)
  case Nil
  then show ?case by (simp add: answered_def count_requests_def)
next
  case (Cons turn turns)
  let ?s = "dialogue_answer sid tid ttext st turn"
  show ?case
  proof (cases "trim (fst turn) = []")
    case True
    have a: "asking_inv n (fst ?s)" and b: "snd ?s = []"
      using blank_turn[OF Cons.prems(1) True] by simp_all
    have k: "answered (turn # turns) = answered turns" using True by (simp add: answered_def)
    show ?thesis
      using Cons.IH[OF a Cons.prems(2)] b unfolding k
      by (simp add: split_beta Let_def)
  next
    case False
    have k: "answered (turn # turns) = Suc (answered turns)" using False by (simp add: answered_def)
    show ?thesis
    proof (cases "n < total")
      case True
      have a: "asking_inv (Suc n) (fst ?s)" and b: "count_requests (snd ?s) = 1"
        using asking_turn[OF Cons.prems(1) False True] by simp_all
      have le: "Suc n \<le> total" using True by simp
      show ?thesis
        using Cons.IH[OF a le] b True unfolding k
        by (auto simp: split_beta Let_def count_requests_append)
    next
      case nt: False
      then have n: "n = total" using Cons.prems(2) by simp
      have a: "complete_inv (fst ?s)" and b: "count_requests (snd ?s) = 1"
        using last_turn[of st turn] Cons.prems(1) False unfolding n by simp_all
      show ?thesis
        using complete_run[OF a, of sid tid ttext turns] a b unfolding k n
        by (simp add: split_beta Let_def count_requests_append)
    qed
  qed
qed


lemma sub_answer_asking:
  "n \<le> 4 \<Longrightarrow>
   (case sub_answer (Asking n asked) t a of
      Inl e \<Rightarrow> False
    | Inr (sd, response) \<Rightarrow>
        is_complete response = (n = 4) \<and>
        (case r_question response of
           None \<Rightarrow> n = 4
         | Some qq \<Rightarrow> n < 4 \<and> question_number qq = Suc n \<and> total_questions qq = 4))"
  by (auto simp: sub_answer_def total_def)

text \<open>
  Claim C4. Start a knowledge test for a UUID-shaped id and let the user go through any
  list of turns; the answers that count are those that are not blank (the modal submits
  no other). The modal is complete exactly when 4 answers have been given. It sends one
  answer request per answer up to the fourth and none after it. The question on display
  has the number of the answers given plus one, and never more than 4. The sub-dialogue
  is asking its next question before the fourth answer and complete from then on. Once
  complete, the sub-dialogue refuses an answer with InvalidState, and a further turn
  changes neither the modal nor the sub-dialogue and sends nothing. The response to the
  answer of question \<open>n\<close> has \<open>is_complete\<close> exactly for \<open>n = 4\<close>, and carries a
  next question, numbered \<open>n + 1\<close> of 4, exactly for \<open>n < 4\<close>.
\<close>

theorem knowledge_test_ends_after_four_answers:
  assumes "uuid_shaped tid"
  shows "(let run = dialogue_answers sid tid ttext (fst (dialogue_start sid tid ttext q)) turns;
              sd = fst (fst run); m = snd (fst run) in
           isComplete m = (4 \<le> answered turns) \<and>
           count_requests (snd run) = min 4 (answered turns) \<and>
           map_option question_number (currentQuestion m) = Some (min 4 (Suc (answered turns))) \<and>
           (case sd of
              Asking n asked \<Rightarrow> answered turns < 4 \<and> n = Suc (answered turns)
            | Complete r p \<Rightarrow> 4 \<le> answered turns
            | NotStarted \<Rightarrow> False) \<and>
           (4 \<le> answered turns \<longrightarrow>
              sub_answer sd t a = Inl InvalidState \<and>
              dialogue_answer sid tid ttext (sd, m) turn = ((sd, m), []))) \<and>
         (n \<le> 4 \<longrightarrow>
            (case sub_answer (Asking n asked) t a of
               Inl e \<Rightarrow> False
             | Inr (sd, response) \<Rightarrow>
                 is_complete response = (n = 4) \<and>
                 (case r_question response of
                    None \<Rightarrow> n = 4
                  | Some qq \<Rightarrow> n < 4 \<and> question_number qq = Suc n \<and> total_questions qq = 4)))"
proof -
  let ?run = "dialogue_answers sid tid ttext (fst (dialogue_start sid tid ttext q)) turns"
  have s: "asking_inv 1 (fst (dialogue_start sid tid ttext q))"
    by (rule start_inv[OF assms])
  have le: "1 \<le> total" by (simp add: total_def)
  note ar = asking_run[OF s le, where sid = sid and tid = tid and ttext = ttext and turns = turns]
  have first: "isComplete (snd (fst ?run)) = (4 \<le> answered turns) \<and>
           count_requests (snd ?run) = min 4 (answered turns) \<and>
           map_option question_number (currentQuestion (snd (fst ?run))) = Some (min 4 (Suc (answered turns))) \<and>
           (case fst (fst ?run) of
              Asking n asked \<Rightarrow> answered turns < 4 \<and> n = Suc (answered turns)
            | Complete r p \<Rightarrow> 4 \<le> answered turns
            | NotStarted \<Rightarrow> False) \<and>
           (4 \<le> answered turns \<longrightarrow>
              sub_answer (fst (fst ?run)) t a = Inl InvalidState \<and>
              dialogue_answer sid tid ttext (fst (fst ?run), snd (fst ?run)) turn
                = ((fst (fst ?run), snd (fst ?run)), []))"
  proof (cases "answered turns < 4")
    case True
    then have "asking_inv (Suc (answered turns)) (fst ?run)" "count_requests (snd ?run) = answered turns"
      using ar by (simp_all add: total_def)
    then show ?thesis
      using True by (auto simp: asking_inv_def split: sub_dialogue.splits)
  next
    case False
    then have c: "complete_inv (fst ?run)" and n: "count_requests (snd ?run) = 4"
      using ar by (simp_all add: total_def)
    have "dialogue_answer sid tid ttext (fst ?run) turn = (fst ?run, [])"
      by (rule complete_turn[OF c])
    then show ?thesis
      using False c n
      by (auto simp: complete_inv_def total_def sub_answer_def split: sub_dialogue.splits)
  qed
  show ?thesis
    using first sub_answer_asking[of n asked t a] unfolding Let_def by blast
qed

theorem knowledge_test_ends_after_four_answers_witness:
  "isComplete (snd (fst (dialogue_answers ''s1'' (item_id ex_todo) ''Review React hooks''
       (fst (dialogue_start ''s1'' (item_id ex_todo) ''Review React hooks'' ''What is a hook?''))
       [ex_turn ''a1'', ex_turn ''a2'', ex_turn ''a3'', ex_turn ''a4'', ex_turn ''a5'']))) \<and>
   count_requests (snd (dialogue_answers ''s1'' (item_id ex_todo) ''Review React hooks''
       (fst (dialogue_start ''s1'' (item_id ex_todo) ''Review React hooks'' ''What is a hook?''))
       [ex_turn ''a1'', ex_turn ''a2'', ex_turn ''a3'', ex_turn ''a4'', ex_turn ''a5''])) = 4 \<and>
   \<not> isComplete (snd (fst (dialogue_answers ''s1'' (item_id ex_todo) ''Review React hooks''
       (fst (dialogue_start ''s1'' (item_id ex_todo) ''Review React hooks'' ''What is a hook?''))
       [ex_turn ''a1'', ex_turn ''a2'', ex_turn ''a3'']))) \<and>
   (case sub_answer (Asking 4 []) (snd (ex_turn ''a4'')) ''a4'' of
      Inl e \<Rightarrow> False
    | Inr (sd, response) \<Rightarrow> is_complete response \<and> r_question response = None)"
proof -
  have "uuidRegex_test ''123e4567-e89b-12d3-a456-426614174000''"
    by (simp add: uuidRegex_test_def is_hex_ci_def eval_nat_numeral)
  then have u: "uuid_shaped (item_id ex_todo)"
    by (simp add: uuidRegex_test_shaped ex_todo_def ex_item_def)
  have k5: "answered [ex_turn ''a1'', ex_turn ''a2'', ex_turn ''a3'', ex_turn ''a4'', ex_turn ''a5''] = 5"
    by (simp add: answered_def ex_turn_def trim_def is_space_def)
  have k3: "answered [ex_turn ''a1'', ex_turn ''a2'', ex_turn ''a3''] = 3"
    by (simp add: answered_def ex_turn_def trim_def is_space_def)
  note a = knowledge_test_ends_after_four_answers[OF u, where sid = "''s1''" and ttext = "''Review React hooks''"
      and q = "''What is a hook?''"
      and turns = "[ex_turn ''a1'', ex_turn ''a2'', ex_turn ''a3'', ex_turn ''a4'', ex_turn ''a5'']",
      unfolded Let_def k5, THEN conjunct1]
  note b = knowledge_test_ends_after_four_answers[OF u, where sid = "''s1''" and ttext = "''Review React hooks''"
      and q = "''What is a hook?''"
      and turns = "[ex_turn ''a1'', ex_turn ''a2'', ex_turn ''a3'']",
      unfolded Let_def k3, THEN conjunct1]
  have 1: "isComplete (snd (fst (dialogue_answers ''s1'' (item_id ex_todo) ''Review React hooks''
       (fst (dialogue_start ''s1'' (item_id ex_todo) ''Review React hooks'' ''What is a hook?''))
       [ex_turn ''a1'', ex_turn ''a2'', ex_turn ''a3'', ex_turn ''a4'', ex_turn ''a5''])))"
    using a by simp
  have 2: "count_requests (snd (dialogue_answers ''s1'' (item_id ex_todo) ''Review React hooks''
       (fst (dialogue_start ''s1'' (item_id ex_todo) ''Review React hooks'' ''What is a hook?''))
       [ex_turn ''a1'', ex_turn ''a2'', ex_turn ''a3'', ex_turn ''a4'', ex_turn ''a5''])) = 4"
    using a by simp
  have 3: "\<not> isComplete (snd (fst (dialogue_answers ''s1'' (item_id ex_todo) ''Review React hooks''
       (fst (dialogue_start ''s1'' (item_id ex_todo) ''Review React hooks'' ''What is a hook?''))
       [ex_turn ''a1'', ex_turn ''a2'', ex_turn ''a3''])))"
    using b by simp
  note c = knowledge_test_ends_after_four_answers[OF u, where n = 4 and asked = "[]"
      and t = "snd (ex_turn ''a4'')" and a = "''a4''", THEN conjunct2]
  have 4: "(case sub_answer (Asking 4 []) (snd (ex_turn ''a4'')) ''a4'' of
      Inl e \<Rightarrow> False
    | Inr (sd, response) \<Rightarrow> is_complete response \<and> r_question response = None)"
    using c by (auto split: sum.splits option.splits)
  show ?thesis
    by (intro conjI 1 2 3 4)
qed

end
